theory Spec2Isabelle
  imports Main "HOL-Library.Word"
begin

unbundle bit_operations_syntax

section \<open>Go values and errors\<close>

text \<open>
  The package \<open>ovs\<close> (file \<open>ovs/match.go\<close>) turns typed packet-field predicates into the
  text of an OpenFlow match clause. Go's \<open>uint8\<close>, \<open>uint16\<close>, \<open>uint32\<close> and \<open>uint64\<close>
  are words of that width, Go's \<open>int\<close> is modelled as \<open>int\<close> (no arithmetic is done on it
  here, it is only compared and printed), \<open>[]byte\<close> and \<open>string\<close> are \<open>string\<close>.

  Every \<open>MarshalText\<close> returns the Go pair \<open>([]byte, error)\<close>. The source returns either
  \<open>(nil, err)\<close> or \<open>(text, nil)\<close>, which is the sum \<open>error + string\<close>: \<open>Inl err\<close> is
  \<open>(nil, err)\<close>, with no text, and \<open>Inr text\<close> is \<open>(text, nil)\<close>.
\<close>

type_synonym uint8 = "8 word"
type_synonym uint16 = "16 word"
type_synonym uint32 = "32 word"
type_synonym uint64 = "64 word"

datatype error =
    RangeError                \<comment> \<open>the range decomposition's error for \<open>start > end\<close>\<close>
  | errInvalidVLANVID         \<comment> \<open>the package variable of that name\<close>
  | Errorf string             \<comment> \<open>\<open>fmt.Errorf\<close>: an error carrying its formatted message\<close>
  | AddrError string string   \<comment> \<open>\<open>net.AddrError{Err, Addr}\<close>, what \<open>net.ParseMAC\<close> returns\<close>
  | errInvalidIPv4 string     \<comment> \<open>the local \<open>errInvalidIPv4\<close> of \<open>matchIPv4AddressOrCIDR\<close>, built from the input\<close>

section \<open>The verbs of \<open>fmt.Sprintf\<close> that the package uses\<close>

text \<open>
  \<open>bprintf\<close> is \<open>[]byte(fmt.Sprintf(format, a...))\<close>. Each call site of the source has a
  constant format string, so a call is modelled as the concatenation of the format's
  literal pieces with the rendering of each verb: \<open>%d\<close> and \<open>%v\<close> on an integer print
  decimal digits (with a leading \<open>-\<close> for a negative \<open>int\<close>), \<open>%x\<close> prints lower-case
  hexadecimal digits without leading zeros, \<open>%#x\<close> prefixes them with \<open>0x\<close>, \<open>%04x\<close> and
  \<open>%08x\<close> pad with zeros on the left up to the width (and never truncate), \<open>%s\<close> copies
  the string.
\<close>

definition ldigits :: string where
  "ldigits = ''0123456789abcdef''"

fun fmt_base :: "nat \<Rightarrow> nat \<Rightarrow> string" where
  "fmt_base b n =
     (if b < 2 \<or> n < b then [ldigits ! n]
      else fmt_base b (n div b) @ [ldigits ! (n mod b)])"

declare fmt_base.simps [simp del]

definition fmt_d :: "nat \<Rightarrow> string" where
  "fmt_d n = fmt_base 10 n"

definition fmt_d_int :: "int \<Rightarrow> string" where
  "fmt_d_int i = (if i < 0 then CHR ''-'' # fmt_base 10 (nat (- i)) else fmt_base 10 (nat i))"

definition fmt_x :: "nat \<Rightarrow> string" where
  "fmt_x n = fmt_base 16 n"

definition zero_pad :: "nat \<Rightarrow> string \<Rightarrow> string" where
  "zero_pad w s = replicate (w - length s) CHR ''0'' @ s"

definition fmt_04x :: "nat \<Rightarrow> string" where
  "fmt_04x n = zero_pad 4 (fmt_x n)"

definition fmt_08x :: "nat \<Rightarrow> string" where
  "fmt_08x n = zero_pad 8 (fmt_x n)"

definition fmt_sharp_x :: "nat \<Rightarrow> string" where
  "fmt_sharp_x n = ''0x'' @ fmt_x n"

text \<open>Reading a digit string back, to say which number a rendering denotes.\<close>

definition digit_val :: "char \<Rightarrow> nat" where
  "digit_val c = (if of_char c < (58::nat) then of_char c - 48 else of_char c - 87)"

definition read_base :: "nat \<Rightarrow> string \<Rightarrow> nat" where
  "read_base b s = foldl (\<lambda>acc c. acc * b + digit_val c) 0 s"

definition is_hex_digit :: "char \<Rightarrow> bool" where
  "is_hex_digit c = (c \<in> set ldigits)"

definition is_dec_digit :: "char \<Rightarrow> bool" where
  "is_dec_digit c = (c \<in> set (take 10 ldigits))"

text \<open>\<open>hex_fixed w s\<close>: the string \<open>s\<close> is exactly \<open>w\<close> hexadecimal digits.\<close>

definition hex_fixed :: "nat \<Rightarrow> string \<Rightarrow> bool" where
  "hex_fixed w s = (length s = w \<and> (\<forall>c \<in> set s. is_hex_digit c))"

text \<open>
  \<open>hex_minimal s\<close>: the string \<open>s\<close> is hexadecimal digits with no padding, that is,
  without a leading zero unless it is the single digit \<open>0\<close>; \<open>is_decimal s\<close> is the same
  for decimal digits.
\<close>

definition is_decimal :: "string \<Rightarrow> bool" where
  "is_decimal s = (s \<noteq> [] \<and> (\<forall>c \<in> set s. is_dec_digit c) \<and> (hd s = CHR ''0'' \<longrightarrow> s = ''0''))"

definition hex_minimal :: "string \<Rightarrow> bool" where
  "hex_minimal s = (s \<noteq> [] \<and> (\<forall>c \<in> set s. is_hex_digit c) \<and> (hd s = CHR ''0'' \<longrightarrow> s = ''0''))"

section \<open>Matches printed from numbers and flags\<close>

text \<open>The names of the match fields (the package's constants).\<close>

definition source :: string where "source = ''src''"
definition destination :: string where "destination = ''dst''"
definition conjID :: string where "conjID = ''conj_id''"
definition ctMark :: string where "ctMark = ''ct_mark''"
definition ctState :: string where "ctState = ''ct_state''"
definition ctZone :: string where "ctZone = ''ct_zone''"
definition dlType :: string where "dlType = ''dl_type''"
definition dlVLAN :: string where "dlVLAN = ''dl_vlan''"
definition icmpType :: string where "icmpType = ''icmp_type''"
definition nwProto :: string where "nwProto = ''nw_proto''"
definition tcpFlags :: string where "tcpFlags = ''tcp_flags''"
definition tunID :: string where "tunID = ''tun_id''"
definition vlanTCI :: string where "vlanTCI = ''vlan_tci''"

definition ethernetAddrLen :: nat where "ethernetAddrLen = 6"

definition VLANNone :: int where "VLANNone = 0xffff"

text \<open>\<open>dataLinkTypeMatch.MarshalText\<close>: \<open>bprintf("%s=0x%04x", dlType, m.etherType)\<close>.\<close>

definition dataLinkTypeMatch_MarshalText :: "uint16 \<Rightarrow> error + string" where
  "dataLinkTypeMatch_MarshalText etherType =
     Inr (dlType @ ''=0x'' @ fmt_04x (unat etherType))"

text \<open>
  \<open>dataLinkVLANMatch.MarshalText\<close>. The helper \<open>validVLANVID\<close> is declared in another file
  of the package; it is a parameter here.
\<close>

definition dataLinkVLANMatch_MarshalText :: "(int \<Rightarrow> bool) \<Rightarrow> int \<Rightarrow> error + string" where
  "dataLinkVLANMatch_MarshalText validVLANVID vid =
     (if \<not> validVLANVID vid \<and> vid \<noteq> VLANNone then Inl errInvalidVLANVID
      else if vid = VLANNone then Inr (dlVLAN @ ''=0xffff'')
      else Inr (dlVLAN @ ''='' @ fmt_d_int vid))"

text \<open>\<open>regMatch\<close> and its \<open>MarshalText\<close>; \<open>^uint32(0)\<close> is the word \<open>- 1\<close>.\<close>

record regMatch =
  reg_n :: int
  reg_val :: uint32
  reg_mask :: uint32

definition regMatch_MarshalText :: "regMatch \<Rightarrow> error + string" where
  "regMatch_MarshalText m =
     (if reg_mask m = 0 then Inr []
      else if reg_mask m = NOT 0 then
        (if reg_val m = 0 then Inr (''reg'' @ fmt_d_int (reg_n m) @ ''=0'')
         else Inr (''reg'' @ fmt_d_int (reg_n m) @ ''=0x'' @ fmt_x (unat (reg_val m))))
      else Inr (''reg'' @ fmt_d_int (reg_n m) @ ''=0x'' @ fmt_x (unat (reg_val m))
                 @ ''/0x'' @ fmt_x (unat (reg_mask m))))"

text \<open>\<open>conjunctionIDMatch.MarshalText\<close>: \<open>bprintf("conj_id=%v", m.id)\<close>.\<close>

definition conjunctionIDMatch_MarshalText :: "uint32 \<Rightarrow> error + string" where
  "conjunctionIDMatch_MarshalText id' = Inr (''conj_id='' @ fmt_d (unat id'))"

text \<open>\<open>networkProtocolMatch.MarshalText\<close>: \<open>bprintf("%s=%d", nwProto, m.num)\<close>.\<close>

definition networkProtocolMatch_MarshalText :: "uint8 \<Rightarrow> error + string" where
  "networkProtocolMatch_MarshalText num = Inr (nwProto @ ''='' @ fmt_d (unat num))"

text \<open>\<open>icmpTypeMatch.MarshalText\<close>: \<open>bprintf("%s=%d", icmpType, m.typ)\<close>.\<close>

definition icmpTypeMatch_MarshalText :: "uint8 \<Rightarrow> error + string" where
  "icmpTypeMatch_MarshalText typ = Inr (icmpType @ ''='' @ fmt_d (unat typ))"

text \<open>\<open>transportPortMatch\<close>, and \<open>matchTransportPort\<close>, which its \<open>MarshalText\<close> calls.\<close>

record transportPortMatch =
  tp_srcdst :: string
  tp_port :: uint16
  tp_mask :: uint16

definition matchTransportPort :: "string \<Rightarrow> uint16 \<Rightarrow> uint16 \<Rightarrow> error + string" where
  "matchTransportPort srcdst port mask' =
     (if mask' = 0 then Inr (''tp_'' @ srcdst @ ''='' @ fmt_d (unat port))
      else Inr (''tp_'' @ srcdst @ ''=0x'' @ fmt_04x (unat port) @ ''/0x'' @ fmt_04x (unat mask')))"

definition transportPortMatch_MarshalText :: "transportPortMatch \<Rightarrow> error + string" where
  "transportPortMatch_MarshalText m = matchTransportPort (tp_srcdst m) (tp_port m) (tp_mask m)"

text \<open>\<open>vlanTCIMatch.MarshalText\<close>.\<close>

definition vlanTCIMatch_MarshalText :: "uint16 \<Rightarrow> uint16 \<Rightarrow> error + string" where
  "vlanTCIMatch_MarshalText tci mask' =
     (if mask' \<noteq> 0 then Inr (vlanTCI @ ''=0x'' @ fmt_04x (unat tci) @ ''/0x'' @ fmt_04x (unat mask'))
      else Inr (vlanTCI @ ''=0x'' @ fmt_04x (unat tci)))"

text \<open>\<open>connectionTrackingMarkMatch.MarshalText\<close>.\<close>

definition connectionTrackingMarkMatch_MarshalText :: "uint32 \<Rightarrow> uint32 \<Rightarrow> error + string" where
  "connectionTrackingMarkMatch_MarshalText mark mask' =
     (if mask' \<noteq> 0 then Inr (ctMark @ ''=0x'' @ fmt_08x (unat mark) @ ''/0x'' @ fmt_08x (unat mask'))
      else Inr (ctMark @ ''=0x'' @ fmt_08x (unat mark)))"

text \<open>\<open>connectionTrackingZoneMatch.MarshalText\<close>: \<open>bprintf("%s=%d", ctZone, m.zone)\<close>.\<close>

definition connectionTrackingZoneMatch_MarshalText :: "uint16 \<Rightarrow> error + string" where
  "connectionTrackingZoneMatch_MarshalText zone = Inr (ctZone @ ''='' @ fmt_d (unat zone))"

text \<open>
  \<open>connectionTrackingMatch.MarshalText\<close> and \<open>tcpFlagsMatch.MarshalText\<close>:
  \<open>strings.Join(xs, "")\<close> is \<open>concat xs\<close>.
\<close>

definition connectionTrackingMatch_MarshalText :: "string list \<Rightarrow> error + string" where
  "connectionTrackingMatch_MarshalText state = Inr (ctState @ ''='' @ concat state)"

definition tcpFlagsMatch_MarshalText :: "string list \<Rightarrow> error + string" where
  "tcpFlagsMatch_MarshalText flags = Inr (tcpFlags @ ''='' @ concat flags)"

text \<open>\<open>tunnelIDMatch.MarshalText\<close>.\<close>

definition tunnelIDMatch_MarshalText :: "uint64 \<Rightarrow> uint64 \<Rightarrow> error + string" where
  "tunnelIDMatch_MarshalText id' mask' =
     (if mask' = 0 then Inr (tunID @ ''='' @ fmt_sharp_x (unat id'))
      else Inr (tunID @ ''='' @ fmt_sharp_x (unat id') @ ''/'' @ fmt_sharp_x (unat mask')))"

section \<open>Transport-port ranges\<close>

text \<open>
  Modelled from the spec: the range decomposition. \<open>MaskedPorts\<close> calls
  \<open>PortRange.BitwiseMatch\<close>, which is declared, with the types \<open>PortRange\<close> and
  \<open>BitRange\<close>, in another file of the package than \<open>ovs/match.go\<close>. The
  definitions \<open>largest_k\<close>, \<open>decompose_loop\<close>, \<open>decompose\<close> and \<open>BitwiseMatch\<close> follow
  section 4.1 of the specification: while \<open>start \<le> end\<close>, find the largest \<open>k\<close>, bounded by
  the width \<open>W\<close>, such that \<open>2 ^ k\<close> divides \<open>start\<close> and \<open>start + 2 ^ k - 1 \<le> end\<close>; emit
  the block \<open>{value: start, maskBits: k}\<close>; continue from \<open>start + 2 ^ k\<close>. A range with
  \<open>start > end\<close> is a RangeError. The bounds are integers (\<open>nat\<close>), so
  \<open>start + 2 ^ k\<close> does not wrap around.
\<close>

record Block =
  bvalue :: nat
  maskBits :: nat

fun largest_k :: "nat \<Rightarrow> nat \<Rightarrow> nat \<Rightarrow> nat" where
  "largest_k 0 start end' = 0"
| "largest_k (Suc k) start end' =
     (if 2 ^ Suc k dvd start \<and> start + 2 ^ Suc k - 1 \<le> end' then Suc k
      else largest_k k start end')"

function decompose_loop :: "nat \<Rightarrow> nat \<Rightarrow> nat \<Rightarrow> Block list" where
  "decompose_loop W start end' =
     (if start \<le> end' then
        \<lparr>bvalue = start, maskBits = largest_k W start end'\<rparr>
          # decompose_loop W (start + 2 ^ largest_k W start end') end'
      else [])"
  by pat_completeness auto
termination
proof (relation "measure (\<lambda>(W, start, end'). Suc end' - start)")
  show "wf (measure (\<lambda>(W, start, end'). Suc end' - start))"
    by simp
next
  fix W start end' :: nat
  assume le: "start \<le> end'"
  have "0 < (2::nat) ^ largest_k W start end'"
    by simp
  with le have "Suc end' - (start + 2 ^ largest_k W start end') < Suc end' - start"
    by arith
  then show "((W, start + 2 ^ largest_k W start end', end'), (W, start, end'))
              \<in> measure (\<lambda>(W, start, end'). Suc end' - start)"
    by simp
qed

declare decompose_loop.simps [simp del]

definition decompose :: "nat \<Rightarrow> nat \<Rightarrow> nat \<Rightarrow> error + Block list" where
  "decompose start end' W =
     (if start > end' then Inl RangeError else Inr (decompose_loop W start end'))"

text \<open>
  Modelled from the spec: \<open>PortRange\<close>, \<open>BitRange\<close> and \<open>BitwiseMatch\<close>. The source reads
  the fields \<open>Start\<close>, \<open>End\<close>, \<open>Value\<close> and \<open>Mask\<close>, all \<open>uint16\<close>. By section 4.2 of the
  specification a block becomes the masked value with \<open>mask = 2 ^ maskBits - 1\<close>, over the
  16-bit field of a transport port, and a failed decomposition returns its error.
\<close>

record PortRange =
  Start :: uint16
  End :: uint16

record BitRange =
  Value :: uint16
  Mask :: uint16

definition BitwiseMatch :: "PortRange \<Rightarrow> error + BitRange list" where
  "BitwiseMatch r =
     (case decompose (unat (Start r)) (unat (End r)) 16 of
        Inl err \<Rightarrow> Inl err
      | Inr blocks \<Rightarrow>
          Inr (map (\<lambda>b. \<lparr>Value = of_nat (bvalue b), Mask = of_nat (2 ^ maskBits b - 1)\<rparr>) blocks))"

text \<open>
  \<open>transportPortRange\<close>, its two constructors and \<open>MaskedPorts\<close>, from the source. The
  loop of \<open>MaskedPorts\<close> appends one \<open>transportPortMatch\<close> for each bit range, in order:
  that is \<open>map\<close>.
\<close>

record transportPortRange =
  pr_srcdst :: string
  startPort :: uint16
  endPort :: uint16

definition TransportDestinationPortRange :: "uint16 \<Rightarrow> uint16 \<Rightarrow> transportPortRange" where
  "TransportDestinationPortRange startPort' endPort' =
     \<lparr>pr_srcdst = destination, startPort = startPort', endPort = endPort'\<rparr>"

definition TransportSourcePortRange :: "uint16 \<Rightarrow> uint16 \<Rightarrow> transportPortRange" where
  "TransportSourcePortRange startPort' endPort' =
     \<lparr>pr_srcdst = source, startPort = startPort', endPort = endPort'\<rparr>"

definition MaskedPorts :: "transportPortRange \<Rightarrow> error + transportPortMatch list" where
  "MaskedPorts pr =
     (let portRange = \<lparr>Start = startPort pr, End = endPort pr\<rparr> in
      case BitwiseMatch portRange of
        Inl err \<Rightarrow> Inl err
      | Inr bitRanges \<Rightarrow>
          Inr (map (\<lambda>br. \<lparr>tp_srcdst = pr_srcdst pr, tp_port = Value br, tp_mask = Mask br\<rparr>)
                 bitRanges))"

text \<open>
  Modelled from the spec: what a masked transport-port match denotes. By section 3 of
  the specification a mask bit 1 of a range-decomposed field means "don't care", so a
  port is matched when it agrees with the match's port on every bit outside the mask;
  with \<open>mask = 0\<close> that is the exact match. A block denotes the integers
  \<open>value, \<dots>, value + 2 ^ maskBits - 1\<close>.
\<close>

definition tp_matches :: "transportPortMatch \<Rightarrow> uint16 \<Rightarrow> bool" where
  "tp_matches m p = (p AND NOT (tp_mask m) = tp_port m AND NOT (tp_mask m))"

definition tp_denotes :: "transportPortMatch \<Rightarrow> uint16 set" where
  "tp_denotes m = {p. tp_matches m p}"

definition block_set :: "Block \<Rightarrow> nat set" where
  "block_set b = {bvalue b ..< bvalue b + 2 ^ maskBits b}"

section \<open>Hardware addresses\<close>


definition hex_byte :: "uint8 \<Rightarrow> string" where
  "hex_byte b = [ldigits ! unat (drop_bit 4 b), ldigits ! unat (b AND 0xF)]"

fun HardwareAddr_String :: "uint8 list \<Rightarrow> string" where
  "HardwareAddr_String [] = []"
| "HardwareAddr_String [b] = hex_byte b"
| "HardwareAddr_String (b # bs) = hex_byte b @ CHR '':'' # HardwareAddr_String bs"




text \<open>
  \<open>strings.SplitN(s, "/", 2)\<close>: the string itself when it has no slash, else the part
  before the first slash and the rest after it.
\<close>

definition SplitN_slash_2 :: "string \<Rightarrow> string list" where
  "SplitN_slash_2 s =
     (case dropWhile (\<lambda>c. c \<noteq> CHR ''/'') s of
        [] \<Rightarrow> [s]
      | _ # rest \<Rightarrow> [takeWhile (\<lambda>c. c \<noteq> CHR ''/'') s, rest])"

text \<open>
  \<open>dataLinkMatch.MarshalText\<close>. \<open>net.ParseMAC\<close> belongs to Go's standard library; the
  model takes it as the parameter \<open>ParseMAC\<close>, so what is proved holds whatever it
  returns.
\<close>

definition dataLinkMatch_MarshalText ::
    "(string \<Rightarrow> error + uint8 list) \<Rightarrow> string \<Rightarrow> string \<Rightarrow> error + string" where
  "dataLinkMatch_MarshalText ParseMAC srcdst addr =
     (let ss = SplitN_slash_2 addr in
      case ParseMAC (ss ! 0) of
        Inl err \<Rightarrow> Inl err
      | Inr hwAddr \<Rightarrow>
          if length hwAddr \<noteq> ethernetAddrLen then
            Inl (Errorf (''hardware address must be '' @ fmt_d ethernetAddrLen
                          @ '' octets, but got '' @ fmt_d (length hwAddr)))
          else if length ss = 1 then
            Inr (''dl_'' @ srcdst @ ''='' @ HardwareAddr_String hwAddr)
          else
            (case ParseMAC (ss ! 1) of
               Inl err \<Rightarrow> Inl err
             | Inr wildcard \<Rightarrow>
                 if length wildcard \<noteq> ethernetAddrLen then
                   Inl (Errorf (''wildcard mask must be '' @ fmt_d ethernetAddrLen
                                 @ '' octets, but got '' @ fmt_d (length wildcard)))
                 else Inr (''dl_'' @ srcdst @ ''='' @ HardwareAddr_String hwAddr
                            @ ''/'' @ HardwareAddr_String wildcard)))"

section \<open>IPv4 addresses and CIDR blocks\<close>

text \<open>
  \<open>net.IP\<close> is a slice of bytes, of length 4 or 16. \<open>To4\<close> (Go's standard library)
  returns the 4-byte form of an address: the address itself when it has 4 bytes, the
  last 4 bytes of a 16-byte address that starts with ten zero bytes and two bytes
  \<open>0xff\<close> (an IPv4-mapped address), and \<open>nil\<close> (\<open>None\<close>) otherwise. \<open>String\<close>
  prints an address whose \<open>To4\<close> is not \<open>nil\<close> as the four bytes in decimal, separated
  by dots.
\<close>

type_synonym IP = "uint8 list"

definition arpSPA :: string where "arpSPA = ''arp_spa''"
definition arpTPA :: string where "arpTPA = ''arp_tpa''"

definition To4 :: "IP \<Rightarrow> IP option" where
  "To4 ip =
     (if length ip = 4 then Some ip
      else if length ip = 16 \<and> (\<forall>b \<in> set (take 10 ip). b = 0)
              \<and> ip ! 10 = 0xff \<and> ip ! 11 = 0xff then Some (drop 12 ip)
      else None)"

fun dotted :: "uint8 list \<Rightarrow> string" where
  "dotted [] = []"
| "dotted [b] = fmt_d (unat b)"
| "dotted (b # bs) = fmt_d (unat b) @ CHR ''.'' # dotted bs"

text \<open>
  \<open>matchIPv4AddressOrCIDR\<close>. \<open>net.ParseCIDR\<close> and \<open>net.ParseIP\<close> belong to Go's standard
  library; the model takes them as parameters. \<open>ParseCIDR\<close> gives \<open>Some ipAddr\<close> when
  its error is \<open>nil\<close> (the source drops the network it also returns), \<open>ParseIP\<close> gives
  \<open>None\<close> for \<open>nil\<close>. On the second branch \<open>ipAddr.String()\<close> is called only where
  \<open>ipAddr.To4()\<close> is not \<open>nil\<close>, where it prints the dotted form of those four bytes.
\<close>

definition matchIPv4AddressOrCIDR ::
    "(string \<Rightarrow> IP option) \<Rightarrow> (string \<Rightarrow> IP option) \<Rightarrow> string \<Rightarrow> string \<Rightarrow> error + string" where
  "matchIPv4AddressOrCIDR ParseCIDR ParseIP key ip =
     (case ParseCIDR ip of
        Some ipAddr \<Rightarrow>
          (if To4 ipAddr = None then Inl (errInvalidIPv4 ip)
           else Inr (key @ ''='' @ ip))
      | None \<Rightarrow>
          (case ParseIP ip of
             Some ipAddr \<Rightarrow>
               (case To4 ipAddr of
                  None \<Rightarrow> Inl (errInvalidIPv4 ip)
                | Some p4 \<Rightarrow> Inr (key @ ''='' @ dotted p4))
           | None \<Rightarrow> Inl (errInvalidIPv4 ip)))"


definition arpProtocolAddressMatch_MarshalText ::
    "(string \<Rightarrow> IP option) \<Rightarrow> (string \<Rightarrow> IP option) \<Rightarrow> string \<Rightarrow> string \<Rightarrow> error + string" where
  "arpProtocolAddressMatch_MarshalText ParseCIDR ParseIP srctgt ip =
     (if srctgt = source then matchIPv4AddressOrCIDR ParseCIDR ParseIP arpSPA ip
      else matchIPv4AddressOrCIDR ParseCIDR ParseIP arpTPA ip)"




section \<open>Properties of the renderings\<close>

lemma digit_val_ldigits_all: "\<forall>d \<in> set [0..<16]. digit_val (ldigits ! d) = d"
  by code_simp

lemma digit_val_ldigits: "d < 16 \<Longrightarrow> digit_val (ldigits ! d) = d"
  using digit_val_ldigits_all by simp

lemma ldigits_nonzero_all: "\<forall>d \<in> set [1..<16]. ldigits ! d \<noteq> CHR ''0''"
  by code_simp

lemma ldigits_nonzero: "0 < d \<Longrightarrow> d < 16 \<Longrightarrow> ldigits ! d \<noteq> CHR ''0''"
  using ldigits_nonzero_all by simp

lemma length_fmt_base: "2 \<le> b \<Longrightarrow> n < b ^ k \<Longrightarrow> 0 < k \<Longrightarrow> length (fmt_base b n) \<le> k"
proof (induction b n arbitrary: k rule: fmt_base.induct)
  case (1 b n)
  show ?case
  proof (cases "n < b")
    case True
    then show ?thesis using 1(4) by (simp add: fmt_base.simps)
  next
    case False
    with 1(2) have nb: "\<not> (b < 2 \<or> n < b)" by simp
    from False 1(3) have "k \<noteq> 1" by auto
    with 1(4) obtain k' where k: "k = Suc k'" and k'pos: "0 < k'" by (cases k) auto
    from 1(3) k have "n div b < b ^ k'"
      by (simp add: less_mult_imp_div_less mult.commute)
    from 1(1)[OF nb 1(2) this k'pos] show ?thesis
      using nb k by (simp add: fmt_base.simps [of b n])
  qed
qed

lemma set_fmt_base: "2 \<le> b \<Longrightarrow> b \<le> 16 \<Longrightarrow> set (fmt_base b n) \<subseteq> set (take b ldigits)"
proof (induction b n rule: fmt_base.induct)
  case (1 b n)
  have len: "length ldigits = 16" by (simp add: ldigits_def)
  have nth_in: "\<And>d. d < b \<Longrightarrow> ldigits ! d \<in> set (take b ldigits)"
    using 1(3) len by (metis in_set_conv_nth length_take min.absorb2 nth_take)
  show ?case
  proof (cases "n < b")
    case True
    then show ?thesis using nth_in by (simp add: fmt_base.simps [of b n])
  next
    case False
    with 1(2) have nb: "\<not> (b < 2 \<or> n < b)" by simp
    have "n mod b < b" using 1(2) by simp
    with 1(1)[OF nb 1(2) 1(3)] nth_in show ?thesis
      using nb by (simp add: fmt_base.simps [of b n])
  qed
qed

lemma read_base_snoc: "read_base b (s @ [c]) = read_base b s * b + digit_val c"
  by (simp add: read_base_def)

lemma read_base_fmt_base: "2 \<le> b \<Longrightarrow> b \<le> 16 \<Longrightarrow> read_base b (fmt_base b n) = n"
proof (induction b n rule: fmt_base.induct)
  case (1 b n)
  show ?case
  proof (cases "n < b")
    case True
    then have "n < 16" using 1(3) by simp
    then show ?thesis using True
      by (simp add: fmt_base.simps [of b n] read_base_def digit_val_ldigits)
  next
    case False
    with 1(2) have nb: "\<not> (b < 2 \<or> n < b)" by simp
    have "n mod b < b" using 1(2) by simp
    then have "n mod b < 16" using 1(3) by simp
    with 1(1)[OF nb 1(2) 1(3)] show ?thesis
      using nb by (simp add: fmt_base.simps [of b n] read_base_snoc digit_val_ldigits)
  qed
qed

lemma read_base_zeros: "read_base b (replicate k CHR ''0'' @ s) = read_base b s"
proof -
  have z: "digit_val CHR ''0'' = 0" by (simp add: digit_val_def)
  have "foldl (\<lambda>acc c. acc * b + digit_val c) 0 (replicate k CHR ''0'') = 0"
    by (induction k) (simp_all add: z)
  then show ?thesis by (simp add: read_base_def)
qed

lemma read_base_zero_pad: "read_base b (zero_pad w s) = read_base b s"
  by (simp add: zero_pad_def read_base_zeros)

lemma fmt_base_nonempty: "fmt_base b n \<noteq> []"
  by (subst fmt_base.simps) simp

lemma fmt_base_0: "fmt_base b 0 = ''0''"
  by (subst fmt_base.simps) (auto simp: ldigits_def)

lemma hd_fmt_base: "2 \<le> b \<Longrightarrow> b \<le> 16 \<Longrightarrow> 0 < n \<Longrightarrow> hd (fmt_base b n) \<noteq> CHR ''0''"
proof (induction b n rule: fmt_base.induct)
  case (1 b n)
  show ?case
  proof (cases "n < b")
    case True
    then show ?thesis using 1(3,4)
      by (simp add: fmt_base.simps [of b n] ldigits_nonzero)
  next
    case False
    with 1(2) have nb: "\<not> (b < 2 \<or> n < b)" by simp
    have "0 < n div b" using False 1(2) by (simp add: div_greater_zero_iff)
    with 1(1)[OF nb 1(2) 1(3)] show ?thesis
      using nb fmt_base_nonempty [of b "n div b"] by (simp add: fmt_base.simps [of b n])
  qed
qed

lemma hd_zero_fmt_base: "2 \<le> b \<Longrightarrow> b \<le> 16 \<Longrightarrow> hd (fmt_base b n) = CHR ''0'' \<Longrightarrow> fmt_base b n = ''0''"
  using hd_fmt_base [of b n] fmt_base_0 [of b] by (cases "n = 0") auto

lemma is_decimal_fmt_d: "is_decimal (fmt_d n)"
  using set_fmt_base [of 10 n] hd_zero_fmt_base [of 10 n]
  by (auto simp: is_decimal_def is_dec_digit_def fmt_d_def fmt_base_nonempty)

lemma read_fmt_d: "read_base 10 (fmt_d n) = n"
  by (simp add: fmt_d_def read_base_fmt_base)

lemma take_16_ldigits: "take 16 ldigits = ldigits"
  by (simp add: ldigits_def)

lemma hex_minimal_fmt_x: "hex_minimal (fmt_x n)"
proof -
  have "set (fmt_base 16 n) \<subseteq> set ldigits"
    using set_fmt_base [of 16 n] by (simp add: take_16_ldigits)
  then show ?thesis
    using hd_zero_fmt_base [of 16 n]
    by (auto simp: hex_minimal_def is_hex_digit_def fmt_x_def fmt_base_nonempty)
qed

lemma read_fmt_x: "read_base 16 (fmt_x n) = n"
  by (simp add: fmt_x_def read_base_fmt_base)

lemma hex_fixed_zero_pad:
  assumes "n < 16 ^ w" and "0 < w"
  shows "hex_fixed w (zero_pad w (fmt_x n))"
proof -
  have len: "length (fmt_x n) \<le> w"
    using assms by (simp add: fmt_x_def length_fmt_base)
  have "CHR ''0'' \<in> set ldigits" by (simp add: ldigits_def)
  moreover have "set (fmt_x n) \<subseteq> set ldigits"
    using set_fmt_base [of 16 n] by (simp add: fmt_x_def take_16_ldigits)
  ultimately show ?thesis
    using len by (auto simp: hex_fixed_def zero_pad_def is_hex_digit_def)
qed

lemma hex_fixed_fmt_04x: "hex_fixed 4 (fmt_04x (unat (w :: uint16)))"
proof -
  have "unat w < 2 ^ 16" using unsigned_less [of w] by simp
  then have "unat w < 16 ^ 4" by simp
  then show ?thesis unfolding fmt_04x_def by (rule hex_fixed_zero_pad) simp
qed

lemma hex_fixed_fmt_08x: "hex_fixed 8 (fmt_08x (unat (w :: uint32)))"
proof -
  have "unat w < 2 ^ 32" using unsigned_less [of w] by simp
  then have "unat w < 16 ^ 8" by simp
  then show ?thesis unfolding fmt_08x_def by (rule hex_fixed_zero_pad) simp
qed

lemma read_fmt_04x: "read_base 16 (fmt_04x n) = n"
  by (simp add: fmt_04x_def read_base_zero_pad read_fmt_x)

lemma read_fmt_08x: "read_base 16 (fmt_08x n) = n"
  by (simp add: fmt_08x_def read_base_zero_pad read_fmt_x)

text \<open>Evaluating a rendering of a numeral.\<close>

lemma replicate_numeral: "replicate (numeral k) x = x # replicate (pred_numeral k) x"
  by (simp add: numeral_eq_Suc)

lemmas fmt_eval = fmt_d_def fmt_d_int_def fmt_x_def fmt_04x_def fmt_08x_def fmt_sharp_x_def
  zero_pad_def fmt_base.simps ldigits_def replicate_numeral

section \<open>Transport ports\<close>

text \<open>
  Claim C4. For every \<open>srcdst\<close>, port and mask, \<open>matchTransportPort\<close> never returns an
  error. With \<open>mask = 0\<close> the text is \<open>tp_<srcdst>=\<close> followed by the port in decimal
  (decimal digits without padding that read back as the port) and there is no mask
  suffix; with any other mask it is \<open>tp_<srcdst>=0x<port>/0x<mask>\<close> where port and
  mask are each exactly four hexadecimal digits that read back as the port and the mask.
\<close>

theorem matchTransportPort_text:
  "(mask' = 0 \<longrightarrow>
      matchTransportPort srcdst port mask' = Inr (''tp_'' @ srcdst @ ''='' @ fmt_d (unat port)))
   \<and> (mask' \<noteq> 0 \<longrightarrow>
      matchTransportPort srcdst port mask'
        = Inr (''tp_'' @ srcdst @ ''=0x'' @ fmt_04x (unat port) @ ''/0x'' @ fmt_04x (unat mask')))
   \<and> is_decimal (fmt_d (unat port)) \<and> read_base 10 (fmt_d (unat port)) = unat port
   \<and> hex_fixed 4 (fmt_04x (unat port)) \<and> read_base 16 (fmt_04x (unat port)) = unat port
   \<and> hex_fixed 4 (fmt_04x (unat mask')) \<and> read_base 16 (fmt_04x (unat mask')) = unat mask'
   \<and> (\<forall>err. matchTransportPort srcdst port mask' \<noteq> Inl err)"
  by (simp add: matchTransportPort_def is_decimal_fmt_d read_fmt_d hex_fixed_fmt_04x read_fmt_04x)

theorem matchTransportPort_text_witness:
  "matchTransportPort ''src'' 80 0 = Inr ''tp_src=80''
   \<and> matchTransportPort ''dst'' 0x10 0xfff0 = Inr ''tp_dst=0x0010/0xfff0''
   \<and> hex_fixed 4 ''0010'' \<and> read_base 16 ''fff0'' = 65520"
proof -
  have d: "fmt_d 80 = ''80''" by (simp add: fmt_eval)
  have p: "fmt_04x 16 = ''0010''" by (simp add: fmt_eval)
  have m: "fmt_04x 65520 = ''fff0''" by (simp add: fmt_eval)
  show ?thesis
    using matchTransportPort_text [of 0 "''src''" 80]
      matchTransportPort_text [of "0xfff0" "''dst''" "0x10"]
    by (simp add: d p m)
qed

text \<open>The digits of a rendering are never a slash, so a slash in a text starts a mask.\<close>

lemma slash_notin_fmt_base: "2 \<le> b \<Longrightarrow> b \<le> 16 \<Longrightarrow> CHR ''/'' \<notin> set (fmt_base b n)"
proof -
  assume b: "2 \<le> b" "b \<le> 16"
  have "CHR ''/'' \<notin> set ldigits" by (simp add: ldigits_def)
  moreover have "set (fmt_base b n) \<subseteq> set ldigits"
    using set_fmt_base [OF b, of n] set_take_subset [of b ldigits] by blast
  ultimately show ?thesis by blast
qed

lemma slash_notin_fmt_d_int: "CHR ''/'' \<notin> set (fmt_d_int i)"
  by (simp add: fmt_d_int_def slash_notin_fmt_base)

lemma slash_notin_fmt_x: "CHR ''/'' \<notin> set (fmt_x n)"
  by (simp add: fmt_x_def slash_notin_fmt_base)

lemma is_decimal_fmt_d_int: "0 \<le> i \<Longrightarrow> is_decimal (fmt_d_int i) \<and> int (read_base 10 (fmt_d_int i)) = i"
  using is_decimal_fmt_d [of "nat i"] read_fmt_d [of "nat i"]
  by (simp add: fmt_d_int_def fmt_d_def)

section \<open>Registers\<close>

text \<open>
  Claim C5. For every register match, \<open>regMatch.MarshalText\<close> never returns an error.
  With \<open>mask = 0\<close> the text is empty. With the all-ones mask \<open>0xffffffff\<close> the text is
  \<open>reg<n>=<val>\<close> with no mask suffix (it has no slash), the value printed as \<open>0\<close> when
  it is zero and as \<open>0x\<close> and its hexadecimal digits otherwise. With any other mask the
  text is \<open>reg<n>=0x<val>/0x<mask>\<close>.
\<close>

theorem regMatch_MarshalText_cases:
  "(reg_mask m = 0 \<longrightarrow> regMatch_MarshalText m = Inr [])
   \<and> (reg_mask m = 0xffffffff \<longrightarrow>
        regMatch_MarshalText m
          = Inr (''reg'' @ fmt_d_int (reg_n m) @ ''=''
                  @ (if reg_val m = 0 then ''0'' else ''0x'' @ fmt_x (unat (reg_val m))))
        \<and> CHR ''/'' \<notin> set (''reg'' @ fmt_d_int (reg_n m) @ ''=''
                  @ (if reg_val m = 0 then ''0'' else ''0x'' @ fmt_x (unat (reg_val m)))))
   \<and> (reg_mask m \<noteq> 0 \<and> reg_mask m \<noteq> 0xffffffff \<longrightarrow>
        regMatch_MarshalText m
          = Inr (''reg'' @ fmt_d_int (reg_n m) @ ''=0x'' @ fmt_x (unat (reg_val m))
                  @ ''/0x'' @ fmt_x (unat (reg_mask m))))
   \<and> (\<forall>err. regMatch_MarshalText m \<noteq> Inl err)"
proof -
  have ones: "NOT (0 :: uint32) = 0xffffffff" by simp
  show ?thesis
    by (simp add: regMatch_MarshalText_def ones slash_notin_fmt_d_int slash_notin_fmt_x)
qed

theorem regMatch_MarshalText_cases_witness:
  "regMatch_MarshalText \<lparr>reg_n = 1, reg_val = 5, reg_mask = 0\<rparr> = Inr []
   \<and> regMatch_MarshalText \<lparr>reg_n = 1, reg_val = 0x1f, reg_mask = 0xffffffff\<rparr> = Inr ''reg1=0x1f''
   \<and> regMatch_MarshalText \<lparr>reg_n = 2, reg_val = 0, reg_mask = 0xffffffff\<rparr> = Inr ''reg2=0''
   \<and> regMatch_MarshalText \<lparr>reg_n = 3, reg_val = 1, reg_mask = 0xf\<rparr> = Inr ''reg3=0x1/0xf''"
  using regMatch_MarshalText_cases [of "\<lparr>reg_n = 1, reg_val = 5, reg_mask = 0\<rparr>"]
    regMatch_MarshalText_cases [of "\<lparr>reg_n = 1, reg_val = 0x1f, reg_mask = 0xffffffff\<rparr>"]
    regMatch_MarshalText_cases [of "\<lparr>reg_n = 2, reg_val = 0, reg_mask = 0xffffffff\<rparr>"]
    regMatch_MarshalText_cases [of "\<lparr>reg_n = 3, reg_val = 1, reg_mask = 0xf\<rparr>"]
  by (simp add: fmt_eval)

section \<open>VLAN identifiers\<close>

text \<open>
  Claim C9. For every VLAN id, whatever the valid domain \<open>validVLANVID\<close> is:
  the reserved "no tag" value \<open>0xffff\<close> is encoded as \<open>dl_vlan=0xffff\<close>; an id of the
  valid domain (other than that reserved value) is encoded as \<open>dl_vlan=\<close> followed by the
  id in decimal; any other id yields the error \<open>errInvalidVLANVID\<close> and no text.
\<close>

theorem dataLinkVLANMatch_MarshalText_cases:
  "(vid = 0xffff \<longrightarrow> dataLinkVLANMatch_MarshalText validVLANVID vid = Inr ''dl_vlan=0xffff'')
   \<and> (validVLANVID vid \<and> vid \<noteq> 0xffff \<longrightarrow>
        dataLinkVLANMatch_MarshalText validVLANVID vid = Inr (''dl_vlan='' @ fmt_d_int vid))
   \<and> (0 \<le> vid \<longrightarrow> is_decimal (fmt_d_int vid) \<and> int (read_base 10 (fmt_d_int vid)) = vid)
   \<and> (\<not> validVLANVID vid \<and> vid \<noteq> 0xffff \<longrightarrow>
        dataLinkVLANMatch_MarshalText validVLANVID vid = Inl errInvalidVLANVID)"
  by (simp add: dataLinkVLANMatch_MarshalText_def VLANNone_def dlVLAN_def is_decimal_fmt_d_int)

theorem dataLinkVLANMatch_MarshalText_cases_witness:
  "dataLinkVLANMatch_MarshalText (\<lambda>vid. 0 \<le> vid \<and> vid \<le> 0xfff) 0xffff = Inr ''dl_vlan=0xffff''
   \<and> dataLinkVLANMatch_MarshalText (\<lambda>vid. 0 \<le> vid \<and> vid \<le> 0xfff) 10 = Inr ''dl_vlan=10''
   \<and> dataLinkVLANMatch_MarshalText (\<lambda>vid. 0 \<le> vid \<and> vid \<le> 0xfff) 4096 = Inl errInvalidVLANVID"
  using dataLinkVLANMatch_MarshalText_cases [of "0xffff" "\<lambda>vid. 0 \<le> vid \<and> vid \<le> 0xfff"]
    dataLinkVLANMatch_MarshalText_cases [of 10 "\<lambda>vid. 0 \<le> vid \<and> vid \<le> 0xfff"]
    dataLinkVLANMatch_MarshalText_cases [of 4096 "\<lambda>vid. 0 \<le> vid \<and> vid \<le> 0xfff"]
  by (simp add: fmt_eval)

section \<open>Matches that cannot fail\<close>

text \<open>
  Claim C10. The encode operations of the flag-set matches (connection-tracking state,
  TCP flags) and of the numeric matches (ethertype, protocol number, ICMP type,
  conjunction id, CT zone, CT mark, VLAN TCI, tunnel ID, register, transport port)
  return a text and no error on every input; a connection-tracking-state match with no
  flag token encodes to \<open>ct_state=\<close>.
\<close>

theorem numeric_and_flag_matches_never_fail:
  "(\<exists>text. connectionTrackingMatch_MarshalText state = Inr text)
   \<and> (\<exists>text. tcpFlagsMatch_MarshalText flags = Inr text)
   \<and> (\<exists>text. dataLinkTypeMatch_MarshalText etherType = Inr text)
   \<and> (\<exists>text. networkProtocolMatch_MarshalText num = Inr text)
   \<and> (\<exists>text. icmpTypeMatch_MarshalText typ = Inr text)
   \<and> (\<exists>text. conjunctionIDMatch_MarshalText cid = Inr text)
   \<and> (\<exists>text. connectionTrackingZoneMatch_MarshalText zone = Inr text)
   \<and> (\<exists>text. connectionTrackingMarkMatch_MarshalText mark mark_mask = Inr text)
   \<and> (\<exists>text. vlanTCIMatch_MarshalText tci tci_mask = Inr text)
   \<and> (\<exists>text. tunnelIDMatch_MarshalText tid tid_mask = Inr text)
   \<and> (\<exists>text. regMatch_MarshalText reg = Inr text)
   \<and> (\<exists>text. transportPortMatch_MarshalText tp = Inr text)
   \<and> connectionTrackingMatch_MarshalText [] = Inr ''ct_state=''"
  by (simp add: connectionTrackingMatch_MarshalText_def tcpFlagsMatch_MarshalText_def
      dataLinkTypeMatch_MarshalText_def networkProtocolMatch_MarshalText_def
      icmpTypeMatch_MarshalText_def conjunctionIDMatch_MarshalText_def
      connectionTrackingZoneMatch_MarshalText_def connectionTrackingMarkMatch_MarshalText_def
      vlanTCIMatch_MarshalText_def tunnelIDMatch_MarshalText_def regMatch_MarshalText_def
      transportPortMatch_MarshalText_def matchTransportPort_def ctState_def)

theorem numeric_and_flag_matches_never_fail_witness:
  "(\<exists>text. connectionTrackingMatch_MarshalText [''+trk'', ''-new''] = Inr text)
   \<and> (\<exists>text. tcpFlagsMatch_MarshalText [''+syn''] = Inr text)
   \<and> (\<exists>text. tunnelIDMatch_MarshalText 0 0 = Inr text)
   \<and> (\<exists>text. regMatch_MarshalText \<lparr>reg_n = - 1, reg_val = 0, reg_mask = 1\<rparr> = Inr text)
   \<and> connectionTrackingMatch_MarshalText [] = Inr ''ct_state=''"
  using numeric_and_flag_matches_never_fail
    [of "[''+trk'', ''-new'']" "[''+syn'']" 0 0 0 0 0 0 0 0 0 0 0
        "\<lparr>reg_n = - 1, reg_val = 0, reg_mask = 1\<rparr>" "\<lparr>tp_srcdst = ''src'', tp_port = 0, tp_mask = 0\<rparr>"]
  by simp

section \<open>The decomposition of a port range\<close>

lemma largest_k_numeral:
  "largest_k (numeral n) start end' =
     (if 2 ^ numeral n dvd start \<and> start + 2 ^ numeral n - 1 \<le> end' then numeral n
      else largest_k (pred_numeral n) start end')"
  by (simp add: numeral_eq_Suc)

lemma largest_k_1:
  "largest_k 1 start end' = (if 2 dvd start \<and> start + 2 - 1 \<le> end' then 1 else 0)"
  using largest_k.simps(2) [of 0 start end'] by simp

lemmas decompose_eval = decompose_def decompose_loop.simps largest_k_numeral largest_k_1

lemma decompose_1_6_blocks:
  "decompose 1 6 16
     = Inr [\<lparr>bvalue = 1, maskBits = 0\<rparr>, \<lparr>bvalue = 2, maskBits = 1\<rparr>,
            \<lparr>bvalue = 4, maskBits = 1\<rparr>, \<lparr>bvalue = 6, maskBits = 0\<rparr>]"
  by (simp add: decompose_eval Suc_1 del: One_nat_def)

lemma MaskedPorts_1_6:
  "MaskedPorts (TransportSourcePortRange 1 6)
     = Inr [\<lparr>tp_srcdst = ''src'', tp_port = 1, tp_mask = 0\<rparr>,
            \<lparr>tp_srcdst = ''src'', tp_port = 2, tp_mask = 1\<rparr>,
            \<lparr>tp_srcdst = ''src'', tp_port = 4, tp_mask = 1\<rparr>,
            \<lparr>tp_srcdst = ''src'', tp_port = 6, tp_mask = 0\<rparr>]"
proof -
  have "decompose (unat (1 :: uint16)) (unat (6 :: uint16)) 16
     = Inr [\<lparr>bvalue = 1, maskBits = 0\<rparr>, \<lparr>bvalue = 2, maskBits = 1\<rparr>,
            \<lparr>bvalue = 4, maskBits = 1\<rparr>, \<lparr>bvalue = 6, maskBits = 0\<rparr>]"
    using decompose_1_6_blocks by simp
  then show ?thesis
    by (simp add: MaskedPorts_def TransportSourcePortRange_def BitwiseMatch_def source_def)
qed

text \<open>
  Claim C2. Decomposing the range [1, 6] over a 16-bit field yields the four blocks
  (value 1, maskBits 0), (value 2, maskBits 1), (value 4, maskBits 1), (value 6, maskBits 0)
  in this order; \<open>MaskedPorts\<close> on the source-port range [1, 6] returns the four matches
  with these values and the masks 0, 1, 1, 0, and their texts are \<open>tp_src=1\<close>,
  \<open>tp_src=0x0002/0x0001\<close>, \<open>tp_src=0x0004/0x0001\<close>, \<open>tp_src=6\<close>.
\<close>

theorem decompose_1_6:
  "decompose 1 6 16
     = Inr [\<lparr>bvalue = 1, maskBits = 0\<rparr>, \<lparr>bvalue = 2, maskBits = 1\<rparr>,
            \<lparr>bvalue = 4, maskBits = 1\<rparr>, \<lparr>bvalue = 6, maskBits = 0\<rparr>]
   \<and> MaskedPorts (TransportSourcePortRange 1 6)
     = Inr [\<lparr>tp_srcdst = ''src'', tp_port = 1, tp_mask = 0\<rparr>,
            \<lparr>tp_srcdst = ''src'', tp_port = 2, tp_mask = 1\<rparr>,
            \<lparr>tp_srcdst = ''src'', tp_port = 4, tp_mask = 1\<rparr>,
            \<lparr>tp_srcdst = ''src'', tp_port = 6, tp_mask = 0\<rparr>]
   \<and> map transportPortMatch_MarshalText
         [\<lparr>tp_srcdst = ''src'', tp_port = 1, tp_mask = 0\<rparr>,
          \<lparr>tp_srcdst = ''src'', tp_port = 2, tp_mask = 1\<rparr>,
          \<lparr>tp_srcdst = ''src'', tp_port = 4, tp_mask = 1\<rparr>,
          \<lparr>tp_srcdst = ''src'', tp_port = 6, tp_mask = 0\<rparr>]
     = [Inr ''tp_src=1'', Inr ''tp_src=0x0002/0x0001'', Inr ''tp_src=0x0004/0x0001'',
        Inr ''tp_src=6'']"
proof -
  have texts: "map transportPortMatch_MarshalText
         [\<lparr>tp_srcdst = ''src'', tp_port = 1, tp_mask = 0\<rparr>,
          \<lparr>tp_srcdst = ''src'', tp_port = 2, tp_mask = 1\<rparr>,
          \<lparr>tp_srcdst = ''src'', tp_port = 4, tp_mask = 1\<rparr>,
          \<lparr>tp_srcdst = ''src'', tp_port = 6, tp_mask = 0\<rparr>]
     = [Inr ''tp_src=1'', Inr ''tp_src=0x0002/0x0001'', Inr ''tp_src=0x0004/0x0001'',
        Inr ''tp_src=6'']"
    by (simp add: transportPortMatch_MarshalText_def matchTransportPort_def fmt_eval)
  from decompose_1_6_blocks MaskedPorts_1_6 texts show ?thesis by (intro conjI)
qed

text \<open>
  Claim C3. For every \<open>start > end\<close> the decomposition yields the RangeError and no
  block; \<open>MaskedPorts\<close> on a port range with \<open>startPort > endPort\<close> returns that error and
  no match, and in general returns unchanged whatever error \<open>BitwiseMatch\<close> returns.
\<close>

theorem decompose_start_after_end:
  "(end' < start \<longrightarrow> decompose start end' W = Inl RangeError)
   \<and> (endPort pr < startPort pr \<longrightarrow>
        BitwiseMatch \<lparr>Start = startPort pr, End = endPort pr\<rparr> = Inl RangeError
        \<and> MaskedPorts pr = Inl RangeError)
   \<and> (\<forall>err. BitwiseMatch \<lparr>Start = startPort pr, End = endPort pr\<rparr> = Inl err
          \<longrightarrow> MaskedPorts pr = Inl err)"
  by (simp add: decompose_def BitwiseMatch_def MaskedPorts_def word_less_nat_alt)

theorem decompose_start_after_end_witness:
  "decompose 6 1 16 = Inl RangeError
   \<and> BitwiseMatch \<lparr>Start = 6, End = 1\<rparr> = Inl RangeError
   \<and> MaskedPorts (TransportDestinationPortRange 6 1) = Inl RangeError"
  using decompose_start_after_end [of 1 6 16 "TransportDestinationPortRange 6 1"]
  by (simp add: TransportDestinationPortRange_def)

lemma of_nat_mask: "(of_nat (2 ^ k - 1) :: uint16) = mask k"
  by (simp add: mask_eq_exp_minus_1)

lemma and_not_mask_eq_iff:
  fixes p q :: "'a::len word"
  shows "(p AND NOT (mask k) = q AND NOT (mask k)) \<longleftrightarrow> drop_bit k p = drop_bit k q"
proof
  assume H: "p AND NOT (mask k) = q AND NOT (mask k)"
  show "drop_bit k p = drop_bit k q"
  proof (rule bit_eqI)
    fix n
    from H have "bit (p AND NOT (mask k)) (k + n) = bit (q AND NOT (mask k)) (k + n)" by simp
    then show "bit (drop_bit k p) n = bit (drop_bit k q) n"
      by (auto simp add: bit_simps dest: bit_imp_le_length)
  qed
next
  assume H: "drop_bit k p = drop_bit k q"
  show "p AND NOT (mask k) = q AND NOT (mask k)"
  proof (rule bit_eqI)
    fix n
    show "bit (p AND NOT (mask k)) n = bit (q AND NOT (mask k)) n"
    proof (cases "n < k")
      case True
      then show ?thesis by (simp add: bit_simps)
    next
      case False
      then obtain d where n: "n = k + d" using le_Suc_ex [of k n] by auto
      from H have "bit (drop_bit k p) d = bit (drop_bit k q) d" by simp
      then have "bit p n = bit q n" by (simp add: bit_simps n)
      then show ?thesis by (simp add: bit_simps)
    qed
  qed
qed

lemma unat_drop_bit_div: "unat (drop_bit k (p :: 'a::len word)) = unat p div 2 ^ k"
  by (subst unat_drop_bit_eq) (simp add: drop_bit_eq_div)

lemma div_eq_aligned:
  fixes x v k :: nat
  assumes "2 ^ k dvd v"
  shows "(x div 2 ^ k = v div 2 ^ k) \<longleftrightarrow> (v \<le> x \<and> x < v + 2 ^ k)"
proof -
  from assms obtain c where v: "v = 2 ^ k * c" by (auto simp: dvd_def)
  have pos: "0 < (2::nat) ^ k" by simp
  have vdiv: "v div 2 ^ k = c" using v by simp
  show ?thesis
  proof
    assume "x div 2 ^ k = v div 2 ^ k"
    then have xc: "x div 2 ^ k = c" using vdiv by simp
    have "x div 2 ^ k * 2 ^ k \<le> x" by (rule div_times_less_eq_dividend)
    moreover have "x < 2 ^ k + x div 2 ^ k * 2 ^ k" using pos by (rule dividend_less_div_times)
    ultimately show "v \<le> x \<and> x < v + 2 ^ k" using xc v by (simp add: mult.commute)
  next
    assume "v \<le> x \<and> x < v + 2 ^ k"
    then have "2 ^ k * c \<le> x" and "x < 2 ^ k * Suc c" using v by simp_all
    then have "x div 2 ^ k = c" by (rule div_nat_eqI)
    then show "x div 2 ^ k = v div 2 ^ k" using vdiv by simp
  qed
qed

text \<open>A block that fits the 16-bit field and the match made from it denote the same ports.\<close>

lemma tp_matches_block:
  assumes dvd: "2 ^ k dvd v" and fit: "v + 2 ^ k \<le> 2 ^ 16"
  shows "tp_matches \<lparr>tp_srcdst = sd, tp_port = of_nat v, tp_mask = of_nat (2 ^ k - 1)\<rparr> p
           \<longleftrightarrow> v \<le> unat p \<and> unat p < v + 2 ^ k"
proof -
  have "0 < (2::nat) ^ k" by simp
  with fit have "v < 2 ^ 16" by arith
  then have uv: "unat (of_nat v :: uint16) = v"
    by (simp add: unat_of_nat)
  have "tp_matches \<lparr>tp_srcdst = sd, tp_port = of_nat v, tp_mask = of_nat (2 ^ k - 1)\<rparr> p
          \<longleftrightarrow> drop_bit k p = drop_bit k (of_nat v :: uint16)"
    by (simp only: tp_matches_def transportPortMatch.select_convs of_nat_mask and_not_mask_eq_iff)
  also have "\<dots> \<longleftrightarrow> unat (drop_bit k p) = unat (drop_bit k (of_nat v :: uint16))"
    by (simp add: word_unat_eq_iff)
  also have "\<dots> \<longleftrightarrow> unat p div 2 ^ k = v div 2 ^ k"
    by (simp add: unat_drop_bit_div uv)
  also have "\<dots> \<longleftrightarrow> v \<le> unat p \<and> unat p < v + 2 ^ k"
    by (rule div_eq_aligned [OF dvd])
  finally show ?thesis .
qed

lemma largest_k_le: "largest_k W start end' \<le> W"
  by (induction W) auto

lemma largest_k_dvd: "2 ^ largest_k W start end' dvd start"
  by (induction W) auto

lemma largest_k_fits: "start \<le> end' \<Longrightarrow> start + 2 ^ largest_k W start end' \<le> Suc end'"
  by (induction W) auto

lemma largest_k_greatest:
  "j \<le> W \<Longrightarrow> 2 ^ j dvd start \<Longrightarrow> start + 2 ^ j - 1 \<le> end' \<Longrightarrow> j \<le> largest_k W start end'"
proof (induction W)
  case 0
  then show ?case by simp
next
  case (Suc W)
  show ?case
  proof (cases "j = Suc W")
    case True
    with Suc.prems show ?thesis by simp
  next
    case False
    with Suc.prems have jW: "j \<le> W" by simp
    from Suc.IH [OF jW Suc.prems(2,3)] jW show ?thesis by simp
  qed
qed

lemma decompose_loop_blocks:
  "b \<in> set (decompose_loop W start end') \<Longrightarrow>
     start \<le> bvalue b \<and> 2 ^ maskBits b dvd bvalue b
     \<and> bvalue b + 2 ^ maskBits b \<le> Suc end' \<and> maskBits b \<le> W"
proof (induction W start end' rule: decompose_loop.induct)
  case (1 W start end')
  show ?case
  proof (cases "start \<le> end'")
    case True
    let ?k = "largest_k W start end'"
    from "1.prems" True
    have "b = \<lparr>bvalue = start, maskBits = ?k\<rparr> \<or> b \<in> set (decompose_loop W (start + 2 ^ ?k) end')"
      by (simp add: decompose_loop.simps [of W start end'])
    then show ?thesis
    proof
      assume "b = \<lparr>bvalue = start, maskBits = ?k\<rparr>"
      then show ?thesis
        using largest_k_le [of W start end'] largest_k_dvd [of W start end']
          largest_k_fits [OF True, of W] by simp
    next
      assume "b \<in> set (decompose_loop W (start + 2 ^ ?k) end')"
      from "1.IH" [OF True this] show ?thesis by simp
    qed
  next
    case False
    with "1.prems" show ?thesis by (simp add: decompose_loop.simps [of W start end'])
  qed
qed

lemma decompose_loop_union:
  "(\<Union>b \<in> set (decompose_loop W start end'). block_set b) = {start..end'}"
proof (induction W start end' rule: decompose_loop.induct)
  case (1 W start end')
  show ?case
  proof (cases "start \<le> end'")
    case True
    let ?k = "largest_k W start end'"
    have fit: "start + 2 ^ ?k \<le> Suc end'" by (rule largest_k_fits [OF True])
    have "(\<Union>b \<in> set (decompose_loop W start end'). block_set b)
            = {start ..< start + 2 ^ ?k} \<union> {start + 2 ^ ?k .. end'}"
      using True "1.IH" [OF True]
      by (simp add: decompose_loop.simps [of W start end'] block_set_def)
    also have "\<dots> = {start..end'}" using fit by auto
    finally show ?thesis .
  next
    case False
    then show ?thesis by (simp add: decompose_loop.simps [of W start end'])
  qed
qed

lemma decompose_loop_disjoint:
  "sorted_wrt (\<lambda>a b. block_set a \<inter> block_set b = {}) (decompose_loop W start end')"
proof (induction W start end' rule: decompose_loop.induct)
  case (1 W start end')
  show ?case
  proof (cases "start \<le> end'")
    case True
    let ?k = "largest_k W start end'"
    have "block_set \<lparr>bvalue = start, maskBits = ?k\<rparr> \<inter> block_set b = {}"
      if "b \<in> set (decompose_loop W (start + 2 ^ ?k) end')" for b
    proof -
      from decompose_loop_blocks [OF that] have "start + 2 ^ ?k \<le> bvalue b" by simp
      then show ?thesis by (auto simp: block_set_def)
    qed
    with "1.IH" [OF True] True show ?thesis
      by (simp add: decompose_loop.simps [of W start end'])
  next
    case False
    then show ?thesis by (simp add: decompose_loop.simps [of W start end'])
  qed
qed

text \<open>The matches that \<open>MaskedPorts\<close> builds from the blocks of a range of ports.\<close>

lemma MaskedPorts_eq:
  "startPort pr \<le> endPort pr \<Longrightarrow>
   MaskedPorts pr
     = Inr (map (\<lambda>b. \<lparr>tp_srcdst = pr_srcdst pr, tp_port = of_nat (bvalue b),
                        tp_mask = of_nat (2 ^ maskBits b - 1)\<rparr>)
              (decompose_loop 16 (unat (startPort pr)) (unat (endPort pr))))"
  by (simp add: MaskedPorts_def BitwiseMatch_def decompose_def word_le_nat_alt comp_def
      del: of_nat_diff)

lemma tp_denotes_block:
  assumes "b \<in> set (decompose_loop 16 (unat (s :: uint16)) (unat (e :: uint16)))"
  shows "tp_denotes \<lparr>tp_srcdst = sd, tp_port = of_nat (bvalue b),
                      tp_mask = of_nat (2 ^ maskBits b - 1)\<rparr>
           = {p. unat p \<in> block_set b}"
proof -
  from decompose_loop_blocks [OF assms]
  have dvd: "2 ^ maskBits b dvd bvalue b" and le: "bvalue b + 2 ^ maskBits b \<le> Suc (unat e)"
    by simp_all
  have "unat e < 2 ^ 16" using unsigned_less [of e] by simp
  with le have fit: "bvalue b + 2 ^ maskBits b \<le> 2 ^ 16" by simp
  show ?thesis
    using tp_matches_block [OF dvd fit]
    by (simp only: tp_denotes_def block_set_def atLeastLessThan_iff)
qed

text \<open>
  Claim C1. For every transport-port range with \<open>startPort \<le> endPort\<close> (the ports are
  16-bit, so \<open>0 \<le> start \<le> end \<le> 2^16 - 1\<close>), \<open>MaskedPorts\<close> returns matches, through
  the range decomposition, that denote pairwise disjoint sets of ports whose union is
  exactly the set of the ports from \<open>startPort\<close> to \<open>endPort\<close>; the blocks of the
  decomposition themselves, for any width, are pairwise disjoint with union
  \<open>{start, \<dots>, end}\<close>.
\<close>

theorem MaskedPorts_partition:
  "(startPort pr \<le> endPort pr \<longrightarrow>
      (\<exists>ms. MaskedPorts pr = Inr ms
         \<and> (\<Union>m \<in> set ms. tp_denotes m) = {startPort pr .. endPort pr}
         \<and> (\<forall>i j. i < j \<and> j < length ms \<longrightarrow> tp_denotes (ms ! i) \<inter> tp_denotes (ms ! j) = {})))
   \<and> (start \<le> end' \<longrightarrow>
      (\<exists>bs. decompose start end' W = Inr bs
         \<and> (\<Union>b \<in> set bs. block_set b) = {start .. end'}
         \<and> (\<forall>i j. i < j \<and> j < length bs \<longrightarrow> block_set (bs ! i) \<inter> block_set (bs ! j) = {})))"
proof (intro conjI impI)
  assume le: "startPort pr \<le> endPort pr"
  let ?bs = "decompose_loop 16 (unat (startPort pr)) (unat (endPort pr))"
  let ?f = "\<lambda>b. \<lparr>tp_srcdst = pr_srcdst pr, tp_port = of_nat (bvalue b),
                   tp_mask = of_nat (2 ^ maskBits b - 1)\<rparr>"
  have den: "tp_denotes (?f b) = {p. unat p \<in> block_set b}" if "b \<in> set ?bs" for b
    using that by (rule tp_denotes_block)
  have "(\<Union>m \<in> set (map ?f ?bs). tp_denotes m) = (\<Union>b \<in> set ?bs. {p. unat p \<in> block_set b})"
    using den by simp
  also have "\<dots> = {p. unat p \<in> (\<Union>b \<in> set ?bs. block_set b)}"
    by auto
  also have "\<dots> = {p. unat (startPort pr) \<le> unat p \<and> unat p \<le> unat (endPort pr)}"
    by (simp only: decompose_loop_union atLeastAtMost_iff)
  also have "\<dots> = {startPort pr .. endPort pr}"
    by (auto simp: word_le_nat_alt)
  finally have union: "(\<Union>m \<in> set (map ?f ?bs). tp_denotes m) = {startPort pr .. endPort pr}" .
  have disj: "tp_denotes (map ?f ?bs ! i) \<inter> tp_denotes (map ?f ?bs ! j) = {}"
    if "i < j" and "j < length (map ?f ?bs)" for i j
  proof -
    from that have j: "j < length ?bs" and i: "i < length ?bs" by simp_all
    from decompose_loop_disjoint [of 16 "unat (startPort pr)" "unat (endPort pr)"] that(1) j
    have "block_set (?bs ! i) \<inter> block_set (?bs ! j) = {}"
      by (simp add: sorted_wrt_iff_nth_less)
    moreover have "tp_denotes (map ?f ?bs ! i) = {p. unat p \<in> block_set (?bs ! i)}"
      using den [of "?bs ! i"] i by simp
    moreover have "tp_denotes (map ?f ?bs ! j) = {p. unat p \<in> block_set (?bs ! j)}"
      using den [of "?bs ! j"] j by simp
    ultimately show ?thesis by auto
  qed
  show "\<exists>ms. MaskedPorts pr = Inr ms
         \<and> (\<Union>m \<in> set ms. tp_denotes m) = {startPort pr .. endPort pr}
         \<and> (\<forall>i j. i < j \<and> j < length ms \<longrightarrow> tp_denotes (ms ! i) \<inter> tp_denotes (ms ! j) = {})"
    using MaskedPorts_eq [OF le] union disj by blast
next
  assume le: "start \<le> end'"
  have "decompose start end' W = Inr (decompose_loop W start end')"
    using le by (simp add: decompose_def)
  moreover have "\<forall>i j. i < j \<and> j < length (decompose_loop W start end')
      \<longrightarrow> block_set (decompose_loop W start end' ! i) \<inter> block_set (decompose_loop W start end' ! j) = {}"
    using decompose_loop_disjoint [of W start end'] by (simp add: sorted_wrt_iff_nth_less)
  ultimately show "\<exists>bs. decompose start end' W = Inr bs
         \<and> (\<Union>b \<in> set bs. block_set b) = {start .. end'}
         \<and> (\<forall>i j. i < j \<and> j < length bs \<longrightarrow> block_set (bs ! i) \<inter> block_set (bs ! j) = {})"
    using decompose_loop_union [of W start end'] by blast
qed

theorem MaskedPorts_partition_witness:
  "startPort (TransportSourcePortRange 1 6) \<le> endPort (TransportSourcePortRange 1 6)
   \<and> (\<Union>m \<in> set [\<lparr>tp_srcdst = ''src'', tp_port = 1, tp_mask = 0\<rparr>,
                     \<lparr>tp_srcdst = ''src'', tp_port = 2, tp_mask = 1\<rparr>,
                     \<lparr>tp_srcdst = ''src'', tp_port = 4, tp_mask = 1\<rparr>,
                     \<lparr>tp_srcdst = ''src'', tp_port = 6, tp_mask = 0\<rparr>]. tp_denotes m) = {1 .. 6}
   \<and> tp_denotes \<lparr>tp_srcdst = ''src'', tp_port = 2, tp_mask = 1\<rparr>
       \<inter> tp_denotes \<lparr>tp_srcdst = ''src'', tp_port = 4, tp_mask = 1\<rparr> = {}
   \<and> (1 :: nat) \<le> 6
   \<and> (\<Union>b \<in> set [\<lparr>bvalue = 1, maskBits = 0\<rparr>, \<lparr>bvalue = 2, maskBits = 1\<rparr>,
                     \<lparr>bvalue = 4, maskBits = 1\<rparr>, \<lparr>bvalue = 6, maskBits = 0\<rparr>]. block_set b)
       = {1 .. 6}"
proof -
  let ?pr = "TransportSourcePortRange 1 6"
  let ?ms = "[\<lparr>tp_srcdst = ''src'', tp_port = 1, tp_mask = 0\<rparr>,
              \<lparr>tp_srcdst = ''src'', tp_port = 2, tp_mask = 1\<rparr>,
              \<lparr>tp_srcdst = ''src'', tp_port = 4, tp_mask = 1\<rparr>,
              \<lparr>tp_srcdst = ''src'', tp_port = 6, tp_mask = 0 :: uint16\<rparr>]"
  let ?bs = "[\<lparr>bvalue = 1, maskBits = 0\<rparr>, \<lparr>bvalue = 2, maskBits = 1\<rparr>,
              \<lparr>bvalue = 4, maskBits = 1\<rparr>, \<lparr>bvalue = 6, maskBits = 0\<rparr>]"
  have le: "startPort ?pr \<le> endPort ?pr"
    by (simp add: TransportSourcePortRange_def)
  have ends: "{startPort ?pr .. endPort ?pr} = {1 .. 6}"
    by (simp add: TransportSourcePortRange_def)
  from MaskedPorts_partition [of ?pr 1 6 16] le MaskedPorts_1_6 decompose_1_6_blocks
  have ports: "(\<Union>m \<in> set ?ms. tp_denotes m) = {startPort ?pr .. endPort ?pr}"
    and pdisj: "\<forall>i j. i < j \<and> j < length ?ms \<longrightarrow> tp_denotes (?ms ! i) \<inter> tp_denotes (?ms ! j) = {}"
    and blocks: "(\<Union>b \<in> set ?bs. block_set b) = {1 .. 6}"
    by simp_all
  from pdisj have "(1::nat) < 2 \<and> (2::nat) < length ?ms
      \<longrightarrow> tp_denotes (?ms ! 1) \<inter> tp_denotes (?ms ! 2) = {}"
    by blast
  then have "tp_denotes \<lparr>tp_srcdst = ''src'', tp_port = 2, tp_mask = 1\<rparr>
       \<inter> tp_denotes \<lparr>tp_srcdst = ''src'', tp_port = 4, tp_mask = 1 :: uint16\<rparr> = {}"
    by simp
  with le ports ends blocks show ?thesis by simp
qed

section \<open>Hexadecimal fields\<close>

text \<open>
  Claim C6, as stated, fails on registers: \<open>regMatch.MarshalText\<close> prints the value and
  the mask with \<open>%x\<close>, without padding. For register 1 with value 1 and mask \<open>0xf\<close> the
  text is \<open>reg1=0x1/0xf\<close>, whose value and mask are one hexadecimal digit each, not
  eight.
\<close>

theorem regMatch_hex_width_counterexample:
  "regMatch_MarshalText \<lparr>reg_n = 1, reg_val = 1, reg_mask = 0xf\<rparr>
     = Inr (''reg1=0x'' @ ''1'' @ ''/0x'' @ ''f'')
   \<and> \<not> hex_fixed 8 ''1'' \<and> \<not> hex_fixed 8 ''f''"
  by (simp add: regMatch_MarshalText_def fmt_eval hex_fixed_def)

text \<open>
  Claim C6, amended. The 16-bit fields are printed as \<open>0x\<close> and exactly four hexadecimal
  digits: the ethertype, the VLAN TCI and its mask, and the transport port and its mask
  when the mask is not 0. The connection-tracking mark and its mask are printed as \<open>0x\<close>
  and exactly eight hexadecimal digits. A register's value and mask are printed as \<open>0x\<close>
  and their hexadecimal digits without padding (a zero value under the all-ones mask is
  printed as \<open>0\<close>). Every such field reads back as the number it renders.
\<close>

theorem hex_fields_width:
  "dataLinkTypeMatch_MarshalText etherType = Inr (''dl_type=0x'' @ fmt_04x (unat etherType))
   \<and> hex_fixed 4 (fmt_04x (unat etherType)) \<and> read_base 16 (fmt_04x (unat etherType)) = unat etherType
   \<and> vlanTCIMatch_MarshalText tci tci_mask
       = Inr (''vlan_tci=0x'' @ fmt_04x (unat tci)
               @ (if tci_mask \<noteq> 0 then ''/0x'' @ fmt_04x (unat tci_mask) else []))
   \<and> hex_fixed 4 (fmt_04x (unat tci)) \<and> read_base 16 (fmt_04x (unat tci)) = unat tci
   \<and> hex_fixed 4 (fmt_04x (unat tci_mask)) \<and> read_base 16 (fmt_04x (unat tci_mask)) = unat tci_mask
   \<and> (port_mask \<noteq> 0 \<longrightarrow>
        matchTransportPort srcdst port port_mask
          = Inr (''tp_'' @ srcdst @ ''=0x'' @ fmt_04x (unat port) @ ''/0x'' @ fmt_04x (unat port_mask)))
   \<and> hex_fixed 4 (fmt_04x (unat port)) \<and> read_base 16 (fmt_04x (unat port)) = unat port
   \<and> hex_fixed 4 (fmt_04x (unat port_mask)) \<and> read_base 16 (fmt_04x (unat port_mask)) = unat port_mask
   \<and> connectionTrackingMarkMatch_MarshalText mark mark_mask
       = Inr (''ct_mark=0x'' @ fmt_08x (unat mark)
               @ (if mark_mask \<noteq> 0 then ''/0x'' @ fmt_08x (unat mark_mask) else []))
   \<and> hex_fixed 8 (fmt_08x (unat mark)) \<and> read_base 16 (fmt_08x (unat mark)) = unat mark
   \<and> hex_fixed 8 (fmt_08x (unat mark_mask)) \<and> read_base 16 (fmt_08x (unat mark_mask)) = unat mark_mask
   \<and> (reg_mask m \<noteq> 0 \<and> reg_mask m \<noteq> 0xffffffff \<longrightarrow>
        regMatch_MarshalText m
          = Inr (''reg'' @ fmt_d_int (reg_n m) @ ''=0x'' @ fmt_x (unat (reg_val m))
                  @ ''/0x'' @ fmt_x (unat (reg_mask m))))
   \<and> (reg_mask m = 0xffffffff \<and> reg_val m \<noteq> 0 \<longrightarrow>
        regMatch_MarshalText m
          = Inr (''reg'' @ fmt_d_int (reg_n m) @ ''=0x'' @ fmt_x (unat (reg_val m))))
   \<and> (reg_mask m = 0xffffffff \<and> reg_val m = 0 \<longrightarrow>
        regMatch_MarshalText m = Inr (''reg'' @ fmt_d_int (reg_n m) @ ''=0''))
   \<and> hex_minimal (fmt_x (unat (reg_val m))) \<and> read_base 16 (fmt_x (unat (reg_val m))) = unat (reg_val m)
   \<and> hex_minimal (fmt_x (unat (reg_mask m))) \<and> read_base 16 (fmt_x (unat (reg_mask m))) = unat (reg_mask m)"
proof -
  have ones: "NOT (0 :: uint32) = 0xffffffff" by simp
  have fields: "hex_fixed 4 (fmt_04x (unat etherType))" "hex_fixed 4 (fmt_04x (unat tci))"
    "hex_fixed 4 (fmt_04x (unat tci_mask))" "hex_fixed 4 (fmt_04x (unat port))"
    "hex_fixed 4 (fmt_04x (unat port_mask))" "hex_fixed 8 (fmt_08x (unat mark))"
    "hex_fixed 8 (fmt_08x (unat mark_mask))" "hex_minimal (fmt_x (unat (reg_val m)))"
    "hex_minimal (fmt_x (unat (reg_mask m)))"
    by (rule hex_fixed_fmt_04x hex_fixed_fmt_08x hex_minimal_fmt_x)+
  have texts: "dataLinkTypeMatch_MarshalText etherType = Inr (''dl_type=0x'' @ fmt_04x (unat etherType))"
    "vlanTCIMatch_MarshalText tci tci_mask
       = Inr (''vlan_tci=0x'' @ fmt_04x (unat tci)
               @ (if tci_mask \<noteq> 0 then ''/0x'' @ fmt_04x (unat tci_mask) else []))"
    "connectionTrackingMarkMatch_MarshalText mark mark_mask
       = Inr (''ct_mark=0x'' @ fmt_08x (unat mark)
               @ (if mark_mask \<noteq> 0 then ''/0x'' @ fmt_08x (unat mark_mask) else []))"
    by (simp_all add: dataLinkTypeMatch_MarshalText_def vlanTCIMatch_MarshalText_def
        connectionTrackingMarkMatch_MarshalText_def dlType_def vlanTCI_def ctMark_def)
  show ?thesis
    using fields texts
    by (simp add: matchTransportPort_def regMatch_MarshalText_def ones read_fmt_04x
        read_fmt_08x read_fmt_x)
qed

theorem hex_fields_width_witness:
  "dataLinkTypeMatch_MarshalText 0x0800 = Inr ''dl_type=0x0800''
   \<and> vlanTCIMatch_MarshalText 0x1000 0x1000 = Inr ''vlan_tci=0x1000/0x1000''
   \<and> matchTransportPort ''dst'' 0x10 0xfff0 = Inr ''tp_dst=0x0010/0xfff0''
   \<and> connectionTrackingMarkMatch_MarshalText 0x20 0 = Inr ''ct_mark=0x00000020''
   \<and> regMatch_MarshalText \<lparr>reg_n = 1, reg_val = 1, reg_mask = 0xf\<rparr> = Inr ''reg1=0x1/0xf''
   \<and> regMatch_MarshalText \<lparr>reg_n = 2, reg_val = 0xab, reg_mask = 0xffffffff\<rparr> = Inr ''reg2=0xab''
   \<and> regMatch_MarshalText \<lparr>reg_n = 2, reg_val = 0, reg_mask = 0xffffffff\<rparr> = Inr ''reg2=0''"
  using hex_fields_width [of "0x0800" "0x1000" "0x1000" "0xfff0" "''dst''" "0x10" "0x20" 0
      "\<lparr>reg_n = 1, reg_val = 1, reg_mask = 0xf\<rparr>"]
    hex_fields_width [of 0 0 0 1 "[]" 0 0 0 "\<lparr>reg_n = 2, reg_val = 0xab, reg_mask = 0xffffffff\<rparr>"]
    hex_fields_width [of 0 0 0 1 "[]" 0 0 0 "\<lparr>reg_n = 2, reg_val = 0, reg_mask = 0xffffffff\<rparr>"]
  by (simp add: fmt_eval)

section \<open>Hardware addresses of the wrong length\<close>

lemma SplitN_slash_2_none:
  assumes "CHR ''/'' \<notin> set s"
  shows "SplitN_slash_2 s = [s]"
proof -
  from assms have d: "dropWhile (\<lambda>c. c \<noteq> CHR ''/'') s = []"
    by (induction s) auto
  show ?thesis unfolding SplitN_slash_2_def d by simp
qed

lemma SplitN_slash_2_first:
  assumes "CHR ''/'' \<notin> set s"
  shows "SplitN_slash_2 (s @ CHR ''/'' # t) = [s, t]"
proof -
  from assms have d: "dropWhile (\<lambda>c. c \<noteq> CHR ''/'') (s @ CHR ''/'' # t) = CHR ''/'' # t"
    by (induction s) auto
  from assms have k: "takeWhile (\<lambda>c. c \<noteq> CHR ''/'') (s @ CHR ''/'' # t) = s"
    by (induction s) auto
  show ?thesis unfolding SplitN_slash_2_def d k by simp
qed

text \<open>An address or a mask that \<open>net.ParseMAC\<close> rejects: its error is returned as it is.\<close>

lemma dataLinkMatch_ParseMAC_error:
  "CHR ''/'' \<notin> set a \<Longrightarrow> ParseMAC a = Inl err \<Longrightarrow>
     dataLinkMatch_MarshalText ParseMAC srcdst a = Inl err
     \<and> dataLinkMatch_MarshalText ParseMAC srcdst (a @ CHR ''/'' # w) = Inl err"
  by (simp add: dataLinkMatch_MarshalText_def SplitN_slash_2_none SplitN_slash_2_first)



section \<open>IPv4 addresses in IPv6 syntax\<close>






end
